theory Spec2Isabelle
  imports Complex_Main
begin

section \<open>Values and errors\<close>

text \<open>
  A \<^verbatim>\<open>std::vector<double>\<close> is a list of reals: a \<^verbatim>\<open>double\<close> is read as the real
  number it stands for (rounding and overflow are not part of the model).  The one value
  outside the reals that the control flow of the planner depends on, the NaN of a
  division \<^verbatim>\<open>0/0\<close>, is modelled as \<open>None\<close>: every comparison with it is false.

  \<^verbatim>\<open>operator[]\<close> outside the vector is undefined behaviour in C++; the model makes it
  the error \<open>OutOfBounds\<close>.
\<close>

type_synonym coords = "real list"

datatype error = OutOfBounds

definition elem :: "'a list \<Rightarrow> nat \<Rightarrow> error + 'a" where
  "elem xs i = (if i < length xs then Inr (xs ! i) else Inl OutOfBounds)"

definition bindE :: "error + 'a \<Rightarrow> ('a \<Rightarrow> error + 'b) \<Rightarrow> error + 'b" where
  "bindE m f = (case m of Inl e \<Rightarrow> Inl e | Inr v \<Rightarrow> f v)"

text \<open>Runs \<open>f\<close> on every element in order and stops at the first error.\<close>

fun traverse :: "('a \<Rightarrow> error + 'b) \<Rightarrow> 'a list \<Rightarrow> error + 'b list" where
  "traverse f [] = Inr []"
| "traverse f (x # xs) =
     (case f x of
        Inl e \<Rightarrow> Inl e
      | Inr y \<Rightarrow> (case traverse f xs of Inl e \<Rightarrow> Inl e | Inr ys \<Rightarrow> Inr (y # ys)))"

section \<open>Geometry kernel\<close>

text \<open>
  Modelled from the spec: \<^verbatim>\<open>GeometryUtils.h\<close> (\<^verbatim>\<open>mag\<close>, \<^verbatim>\<open>dis\<close>, \<^verbatim>\<open>COS_VAL\<close>) is not among
  the sources.  Section 4.1 of the specification gives
  \<^verbatim>\<open>magnitude(dx, dy) = sqrt(dx^2 + dy^2)\<close>.
\<close>

definition mag :: "real \<Rightarrow> real \<Rightarrow> real" where
  "mag dx dy = sqrt (dx\<^sup>2 + dy\<^sup>2)"

text \<open>
  Modelled from the spec: \<^verbatim>\<open>dis\<close> of \<^verbatim>\<open>GeometryUtils.h\<close>, the signed distance from the
  point \<open>(px, py)\<close> to the line through the origin point with direction
  \<open>(lineDx, lineDy)\<close>, cross product over magnitude.  A direction of length zero gives
  \<^verbatim>\<open>0/0\<close>, no value.
\<close>

definition dis :: "real \<Rightarrow> real \<Rightarrow> real \<Rightarrow> real \<Rightarrow> real \<Rightarrow> real \<Rightarrow> real option" where
  "dis lineDx lineDy originX originY px py =
     (if mag lineDx lineDy = 0 then None
      else Some ((lineDx * (py - originY) - lineDy * (px - originX)) / mag lineDx lineDy))"

text \<open>
  Modelled from the spec: \<^verbatim>\<open>COS_VAL\<close> of \<^verbatim>\<open>GeometryUtils.h\<close>,
  \<^verbatim>\<open>cosineOfAngle(ax, ay, bx, by) = dot(a,b) / (|a||b|)\<close>; a vector of length zero gives
  an undefined angle.
\<close>

definition COS_VAL :: "real \<Rightarrow> real \<Rightarrow> real \<Rightarrow> real \<Rightarrow> real option" where
  "COS_VAL ax ay bx by =
     (if mag ax ay * mag bx by = 0 then None
      else Some ((ax * bx + ay * by) / (mag ax ay * mag bx by)))"

text \<open>\<^verbatim>\<open>std::abs(d) < bound\<close> on a value that may be NaN.\<close>

definition abs_less :: "real option \<Rightarrow> real \<Rightarrow> bool" where
  "abs_less d bound = (case d of None \<Rightarrow> False | Some v \<Rightarrow> \<bar>v\<bar> < bound)"

section \<open>Obstruction detector (ShotPlanner.cpp)\<close>

definition coincident :: "real \<Rightarrow> real \<Rightarrow> real \<Rightarrow> real \<Rightarrow> real \<Rightarrow> real \<Rightarrow> bool" where
  "coincident x1 y1 x2 y2 obs_x obs_y \<longleftrightarrow>
     (obs_x = x2 \<and> obs_y = y2) \<or> (obs_x = x1 \<and> obs_y = y1)"

fun isPathObstructed ::
  "real \<Rightarrow> real \<Rightarrow> real \<Rightarrow> real \<Rightarrow> coords list \<Rightarrow> real \<Rightarrow> error + bool" where
  "isPathObstructed x1 y1 x2 y2 [] bound_radius = Inr False"
| "isPathObstructed x1 y1 x2 y2 (obs # obstacles) bound_radius =
     (case elem obs 0 of
        Inl e \<Rightarrow> Inl e
      | Inr obs_x \<Rightarrow>
     (case elem obs 1 of
        Inl e \<Rightarrow> Inl e
      | Inr obs_y \<Rightarrow>
          (let d = dis (x2 - x1) (y2 - y1) x1 y1 obs_x obs_y in
           if coincident x1 y1 x2 y2 obs_x obs_y
           then isPathObstructed x1 y1 x2 y2 obstacles bound_radius
           else if abs_less d bound_radius \<and>
                   mag (obs_x - x1) (obs_y - y1) < mag (x2 - x1) (y2 - y1)
           then Inr True
           else isPathObstructed x1 y1 x2 y2 obstacles bound_radius)))"

section \<open>Direct shot generator (ShotPlanner.cpp)\<close>

text \<open>
  The two nested loops of \<^verbatim>\<open>selectClearShots\<close> visit the pairs of
  \<open>List.product childballs holes\<close> in this order; each visit appends one entry or none.
  Step 1, the body of the first loop nest: the (child, hole) pair is recorded when the
  path from the child ball to the hole is not obstructed by the object balls.
\<close>

definition child_hole_entry ::
  "coords list \<Rightarrow> real \<Rightarrow> coords \<times> coords \<Rightarrow> error + (coords \<times> coords) list" where
  "child_hole_entry childballs bound_radius p =
     (case p of (child, hole) \<Rightarrow>
        bindE (elem child 0) (\<lambda>c0. bindE (elem child 1) (\<lambda>c1.
        bindE (elem hole 0) (\<lambda>h0. bindE (elem hole 1) (\<lambda>h1.
        bindE (isPathObstructed c0 c1 h0 h1 childballs bound_radius) (\<lambda>obstructed.
          Inr (if \<not> obstructed then [(child, hole)] else [])))))))"

definition child_hole_result ::
  "coords list \<Rightarrow> coords list \<Rightarrow> real \<Rightarrow> error + (coords \<times> coords) list" where
  "child_hole_result holes childballs bound_radius =
     bindE (traverse (child_hole_entry childballs bound_radius) (List.product childballs holes))
       (\<lambda>entries. Inr (concat entries))"

text \<open>
  The two literals of \<^verbatim>\<open>ShotPlanner.cpp\<close> that are not doubles as written stand for the
  nearest double: \<^verbatim>\<open>1e-9\<close> and \<^verbatim>\<open>3.1415926\<close>.
\<close>

definition lit_1e_9 :: real where
  "lit_1e_9 = 4835703278458517 / 2 ^ 82"

definition lit_3_1415926 :: real where
  "lit_3_1415926 = 3537118815677477 / 2 ^ 50"

text \<open>
  \<^verbatim>\<open>std::abs(acos(c) * 180 / 3.1415926)\<close>: no value when the cosine has none, and none
  when it lies outside the interval from -1 to 1, where \<^verbatim>\<open>acos\<close> returns NaN.
\<close>

definition angle_deg :: "real option \<Rightarrow> real option" where
  "angle_deg c =
     (case c of
        None \<Rightarrow> None
      | Some v \<Rightarrow>
          if - 1 \<le> v \<and> v \<le> 1 then Some \<bar>arccos v * 180 / lit_3_1415926\<bar> else None)"

definition angle_below :: "real option \<Rightarrow> real \<Rightarrow> bool" where
  "angle_below a limit = (case a of None \<Rightarrow> False | Some v \<Rightarrow> v < limit)"

text \<open>
  Step 2, the body of the second loop nest.  The source appends
  \<^verbatim>\<open>(cueballs, child)\<close> to a vector of pairs of coordinate vectors; the first component,
  which the matching loop calls \<^verbatim>\<open>cue_ball\<close>, is the cue ball \<^verbatim>\<open>cueballs[0]\<close>.
\<close>

definition cue_child_entry ::
  "coords list \<Rightarrow> coords list \<Rightarrow> real \<Rightarrow> coords \<times> coords \<Rightarrow> error + (coords \<times> coords) list" where
  "cue_child_entry cueballs childballs bound_radius p =
     (case p of (child, hole) \<Rightarrow>
        bindE (elem child 0) (\<lambda>c0. bindE (elem child 1) (\<lambda>c1.
        bindE (elem cueballs 0) (\<lambda>cue.
        bindE (elem cue 0) (\<lambda>q0. bindE (elem cue 1) (\<lambda>q1.
        bindE (isPathObstructed c0 c1 q0 q1 childballs bound_radius) (\<lambda>obstructed.
          if \<not> obstructed then
            bindE (elem hole 0) (\<lambda>h0. bindE (elem hole 1) (\<lambda>h1.
              (let angle2 = angle_deg (COS_VAL (c0 - q0) (c1 - q1) (h0 - c0) (h1 - c1))
               in Inr (if angle_below angle2 110 then [(cue, child)] else []))))
          else Inr [])))))))"

definition cue_child_result ::
  "coords list \<Rightarrow> coords list \<Rightarrow> coords list \<Rightarrow> real \<Rightarrow> error + (coords \<times> coords) list" where
  "cue_child_result cueballs holes childballs bound_radius =
     bindE (traverse (cue_child_entry cueballs childballs bound_radius)
              (List.product childballs holes))
       (\<lambda>entries. Inr (concat entries))"

text \<open>
  The comparison of step 3: equal sizes, and no index \<open>i\<close> with
  \<^verbatim>\<open>std::abs(child_ball[i] - cue_ball[i]) > 1e-9\<close>.
\<close>

definition is_same :: "coords \<Rightarrow> coords \<Rightarrow> bool" where
  "is_same child_ball cue_ball \<longleftrightarrow>
     list_all2 (\<lambda>a b. \<not> lit_1e_9 < \<bar>a - b\<bar>) child_ball cue_ball"

text \<open>
  Step 3: a pair of step 1 is appended to the result, once, when some entry of step 2 has
  a first component that compares equal to the pair's child ball.
\<close>

definition match_shots ::
  "(coords \<times> coords) list \<Rightarrow> (coords \<times> coords) list \<Rightarrow> (coords \<times> coords) list" where
  "match_shots child_hole_res cue_child_res =
     filter (\<lambda>child_hole.
               list_ex (\<lambda>cue_child. is_same (fst child_hole) (fst cue_child)) cue_child_res)
       child_hole_res"

definition selectClearShots ::
  "coords list \<Rightarrow> coords list \<Rightarrow> coords list \<Rightarrow> real \<Rightarrow> error + (coords \<times> coords) list" where
  "selectClearShots cueballs holes childballs bound_radius =
     bindE (child_hole_result holes childballs bound_radius) (\<lambda>child_hole_res.
     bindE (cue_child_result cueballs holes childballs bound_radius) (\<lambda>cue_child_res.
       Inr (match_shots child_hole_res cue_child_res)))"

section \<open>Shot selection and strike (main.cpp)\<close>

text \<open>
  \<^verbatim>\<open>FlipShot\<close> is declared in \<^verbatim>\<open>FlipPlanner.h\<close>, which is not among the sources; these
  are the three members \<^verbatim>\<open>main\<close> reads.
\<close>

record FlipShot =
  target_coords :: coords
  hole_coords :: coords
  total_distance :: real

text \<open>
  The local variables of \<^verbatim>\<open>main\<close> that the selection loops update
  (\<open>total_distance_var\<close> is the local \<^verbatim>\<open>total_distance\<close>).
\<close>

record main_vars =
  min_dist :: real
  target_ball :: coords
  target_hole :: coords
  total_distance_var :: real

text \<open>\<^verbatim>\<open>std::numeric_limits<double>::max()\<close>, the largest finite double.\<close>

definition DBL_MAX :: real where
  "DBL_MAX = (2 ^ 53 - 1) * 2 ^ 971"

definition shot_dist :: "coords list \<Rightarrow> coords \<times> coords \<Rightarrow> error + real" where
  "shot_dist cueball shot =
     bindE (elem (fst shot) 0) (\<lambda>b0. bindE (elem (snd shot) 0) (\<lambda>h0.
     bindE (elem (fst shot) 1) (\<lambda>b1. bindE (elem (snd shot) 1) (\<lambda>h1.
     bindE (elem cueball 0) (\<lambda>cue.
     bindE (elem cue 0) (\<lambda>q0. bindE (elem cue 1) (\<lambda>q1.
       Inr (mag (b0 - h0) (b1 - h1) + mag (q0 - b0) (q1 - b1)))))))))"

definition direct_step :: "coords list \<Rightarrow> main_vars \<Rightarrow> coords \<times> coords \<Rightarrow> error + main_vars" where
  "direct_step cueball v shot =
     bindE (shot_dist cueball shot) (\<lambda>dist.
       Inr (if dist < min_dist v
            then v\<lparr>min_dist := dist, target_ball := fst shot, target_hole := snd shot,
                   total_distance_var := dist\<rparr>
            else v))"

fun foldE :: "('s \<Rightarrow> 'a \<Rightarrow> error + 's) \<Rightarrow> 's \<Rightarrow> 'a list \<Rightarrow> error + 's" where
  "foldE f s [] = Inr s"
| "foldE f s (x # xs) = (case f s x of Inl e \<Rightarrow> Inl e | Inr s' \<Rightarrow> foldE f s' xs)"

definition select_direct :: "coords list \<Rightarrow> (coords \<times> coords) list \<Rightarrow> error + main_vars" where
  "select_direct cueball valid_shots =
     foldE (direct_step cueball)
       \<lparr>min_dist = DBL_MAX, target_ball = [], target_hole = [], total_distance_var = 0\<rparr>
       valid_shots"

text \<open>The body of the loop over the flip shots: the state is \<^verbatim>\<open>best\<close> and \<^verbatim>\<open>total_distance\<close>.\<close>

definition flip_step :: "FlipShot \<Rightarrow> FlipShot \<times> real \<Rightarrow> FlipShot \<times> real" where
  "flip_step fs st =
     (case st of (best, td) \<Rightarrow>
        if total_distance fs < total_distance best then (fs, total_distance fs) else (best, td))"

definition select_flip :: "FlipShot list \<Rightarrow> main_vars" where
  "select_flip flip_shots =
     (case fold flip_step flip_shots (hd flip_shots, 0) of (best, td) \<Rightarrow>
        \<lparr>min_dist = DBL_MAX, target_ball = target_coords best, target_hole = hole_coords best,
         total_distance_var = td\<rparr>)"

text \<open>
  The commands sent to the arm, each with the distance it is given; the pose arguments,
  which no selection depends on, are left out.
\<close>

datatype hw_action = MoveToPose real | ExecuteStrike real | ReturnToHome | Disconnect

record outcome =
  exit_code :: int
  cout :: string
  cerr :: string
  actions :: "hw_action list"

text \<open>
  Lines 85 to 124 of \<^verbatim>\<open>main\<close>: the hit position reads both coordinates of the target
  ball, the target hole and the cue ball, then the arm moves, strikes and returns home.
\<close>

definition strike :: "coords list \<Rightarrow> main_vars \<Rightarrow> string \<Rightarrow> error + outcome" where
  "strike cueball v msg =
     bindE (elem (target_hole v) 0) (\<lambda>h0. bindE (elem (target_ball v) 0) (\<lambda>b0.
     bindE (elem (target_hole v) 1) (\<lambda>h1. bindE (elem (target_ball v) 1) (\<lambda>b1.
     bindE (elem cueball 0) (\<lambda>cue.
     bindE (elem cue 0) (\<lambda>q0. bindE (elem cue 1) (\<lambda>q1.
       Inr \<lparr>exit_code = 0, cout = msg, cerr = [],
            actions = [MoveToPose (total_distance_var v), ExecuteStrike (total_distance_var v),
                       ReturnToHome, Disconnect]\<rparr>)))))))"

text \<open>
  \<^verbatim>\<open>main\<close>, with the values read from the robot connection and the CSV files as
  arguments.  \<^verbatim>\<open>evaluateFlipShots\<close> (\<^verbatim>\<open>FlipPlanner.h\<close>) is not among the sources and is an
  argument too.
\<close>

definition main ::
  "(coords \<Rightarrow> coords list \<Rightarrow> coords list \<Rightarrow> coords list \<Rightarrow> real \<Rightarrow> FlipShot list) \<Rightarrow>
   int \<Rightarrow> coords list \<Rightarrow> coords list \<Rightarrow> coords list \<Rightarrow> coords list \<Rightarrow> error + outcome" where
  "main evaluateFlipShots device_id cueball childballs holes walls =
     (if device_id < 0
      then Inr \<lparr>exit_code = - 1, cout = [], cerr = ''Failed to connect to robot controller.'',
                actions = []\<rparr>
      else
        bindE (selectClearShots cueball holes childballs 15) (\<lambda>valid_shots.
          if valid_shots \<noteq> [] then
            bindE (select_direct cueball valid_shots) (\<lambda>v.
              strike cueball v ''Selected direct shot.'')
          else
            bindE (elem cueball 0) (\<lambda>cue.
              (let flip_shots = evaluateFlipShots cue childballs childballs walls 15 in
               if flip_shots \<noteq> [] then
                 strike cueball (select_flip flip_shots) ''Selected flip shot via wall.''
               else
                 Inr \<lparr>exit_code = - 1, cout = [],
                      cerr = ''No available shots (direct or flip).'', actions = []\<rparr>))))"

section \<open>Predicates used in the statements\<close>

text \<open>
  The test that the loop body of \<^verbatim>\<open>isPathObstructed\<close> applies to one obstacle, and the
  tests of the two loop nests of \<^verbatim>\<open>selectClearShots\<close> on one (child, hole) pair, for
  coordinate vectors with at least two entries.
\<close>

definition obstructs :: "real \<Rightarrow> real \<Rightarrow> real \<Rightarrow> real \<Rightarrow> real \<Rightarrow> coords \<Rightarrow> bool" where
  "obstructs x1 y1 x2 y2 r obs \<longleftrightarrow>
     \<not> coincident x1 y1 x2 y2 (obs ! 0) (obs ! 1) \<and>
     abs_less (dis (x2 - x1) (y2 - y1) x1 y1 (obs ! 0) (obs ! 1)) r \<and>
     mag (obs ! 0 - x1) (obs ! 1 - y1) < mag (x2 - x1) (y2 - y1)"

definition step1_keeps :: "coords list \<Rightarrow> real \<Rightarrow> coords \<times> coords \<Rightarrow> bool" where
  "step1_keeps childballs r p \<longleftrightarrow>
     \<not> (\<exists>obs\<in>set childballs.
           obstructs (fst p ! 0) (fst p ! 1) (snd p ! 0) (snd p ! 1) r obs)"

definition step2_keeps :: "coords \<Rightarrow> coords list \<Rightarrow> real \<Rightarrow> coords \<times> coords \<Rightarrow> bool" where
  "step2_keeps cue childballs r p \<longleftrightarrow>
     \<not> (\<exists>obs\<in>set childballs.
           obstructs (fst p ! 0) (fst p ! 1) (cue ! 0) (cue ! 1) r obs) \<and>
     angle_below
       (angle_deg (COS_VAL (fst p ! 0 - cue ! 0) (fst p ! 1 - cue ! 1)
                     (snd p ! 0 - fst p ! 0) (snd p ! 1 - fst p ! 1))) 110"

text \<open>
  The angle between two vectors, in radians; none when one of them has length zero.
\<close>

definition angle_between :: "real \<Rightarrow> real \<Rightarrow> real \<Rightarrow> real \<Rightarrow> real option" where
  "angle_between ax ay bx by = map_option arccos (COS_VAL ax ay bx by)"

text \<open>
  Index \<open>i\<close> holds the first minimum of the list: no element is smaller, and every
  earlier element is larger.
\<close>

definition first_min_at :: "real list \<Rightarrow> nat \<Rightarrow> bool" where
  "first_min_at ds i \<longleftrightarrow>
     i < length ds \<and> (\<forall>j<length ds. ds ! i \<le> ds ! j) \<and> (\<forall>j<i. ds ! i < ds ! j)"

section \<open>Properties of the obstruction detector and of the direct shot generator\<close>

lemma elem_0: "2 \<le> length xs \<Longrightarrow> elem xs 0 = Inr (xs ! 0)"
  by (auto simp add: elem_def)

lemma elem_1: "2 \<le> length xs \<Longrightarrow> elem xs (Suc 0) = Inr (xs ! Suc 0)"
  by (auto simp add: elem_def)

lemma bindE_Inr [simp]: "bindE (Inr v) f = f v"
  by (simp add: bindE_def)

lemma bindE_Inl [simp]: "bindE (Inl e) f = Inl e"
  by (simp add: bindE_def)

lemma isPathObstructed_char:
  "\<forall>obs\<in>set obstacles. 2 \<le> length obs \<Longrightarrow>
   isPathObstructed x1 y1 x2 y2 obstacles r =
     Inr (\<exists>obs\<in>set obstacles. obstructs x1 y1 x2 y2 r obs)"
proof (induction obstacles)
  case Nil
  show ?case by simp
next
  case (Cons obs obstacles)
  from Cons.prems have len: "2 \<le> length obs" by simp
  from Cons.prems have rest: "\<forall>obs\<in>set obstacles. 2 \<le> length obs" by simp
  show ?case
    using Cons.IH [OF rest]
    by (auto simp add: elem_0 [OF len] elem_1 [OF len] obstructs_def Let_def)
qed


lemma traverse_map:
  "(\<And>x. x \<in> set xs \<Longrightarrow> f x = Inr (g x)) \<Longrightarrow> traverse f xs = Inr (map g xs)"
  by (induction xs) simp_all

lemma concat_map_if:
  "concat (map (\<lambda>p. if P p then [g p] else []) xs) = map g (filter P xs)"
  by (induction xs) simp_all

lemma child_hole_entry_char:
  assumes "\<forall>obs\<in>set childballs. 2 \<le> length obs" and "2 \<le> length child" and "2 \<le> length hole"
  shows "child_hole_entry childballs r (child, hole) =
           Inr (if step1_keeps childballs r (child, hole) then [(child, hole)] else [])"
  using assms
  by (simp add: child_hole_entry_def elem_0 elem_1 isPathObstructed_char step1_keeps_def)

lemma child_hole_result_char:
  assumes balls: "\<forall>obs\<in>set childballs. 2 \<le> length obs"
    and holes: "\<forall>h\<in>set holes. 2 \<le> length h"
  shows "child_hole_result holes childballs r =
           Inr (filter (step1_keeps childballs r) (List.product childballs holes))"
proof -
  have "traverse (child_hole_entry childballs r) (List.product childballs holes) =
          Inr (map (\<lambda>p. if step1_keeps childballs r p then [p] else [])
                 (List.product childballs holes))"
  proof (rule traverse_map)
    fix p assume "p \<in> set (List.product childballs holes)"
    then have "2 \<le> length (fst p)" "2 \<le> length (snd p)"
      using balls holes by auto
    then show "child_hole_entry childballs r p =
                 Inr (if step1_keeps childballs r p then [p] else [])"
      using child_hole_entry_char [OF balls, of "fst p" "snd p" r] by simp
  qed
  then show ?thesis
    by (simp add: child_hole_result_def concat_map_if [where g = "\<lambda>p. p", simplified])
qed

lemma cue_child_entry_char:
  assumes "\<forall>obs\<in>set childballs. 2 \<le> length obs" and "2 \<le> length child" and "2 \<le> length hole"
    and "2 \<le> length cue"
  shows "cue_child_entry (cue # others) childballs r (child, hole) =
           Inr (if step2_keeps cue childballs r (child, hole) then [(cue, child)] else [])"
  using assms
  by (simp add: cue_child_entry_def elem_0 elem_1 elem_def [of "cue # others"]
      isPathObstructed_char step2_keeps_def Let_def)

lemma cue_child_result_char:
  assumes balls: "\<forall>obs\<in>set childballs. 2 \<le> length obs"
    and holes: "\<forall>h\<in>set holes. 2 \<le> length h"
    and cue: "2 \<le> length cue"
  shows "cue_child_result (cue # others) holes childballs r =
           Inr (map (\<lambda>p. (cue, fst p))
                  (filter (step2_keeps cue childballs r) (List.product childballs holes)))"
proof -
  have "traverse (cue_child_entry (cue # others) childballs r) (List.product childballs holes) =
          Inr (map (\<lambda>p. if step2_keeps cue childballs r p then [(cue, fst p)] else [])
                 (List.product childballs holes))"
  proof (rule traverse_map)
    fix p assume "p \<in> set (List.product childballs holes)"
    then have "2 \<le> length (fst p)" "2 \<le> length (snd p)"
      using balls holes by auto
    then show "cue_child_entry (cue # others) childballs r p =
                 Inr (if step2_keeps cue childballs r p then [(cue, fst p)] else [])"
      using cue_child_entry_char [OF balls _ _ cue, of "fst p" "snd p" others r] by simp
  qed
  then show ?thesis
    by (simp add: cue_child_result_def concat_map_if)
qed

lemma selectClearShots_char:
  assumes balls: "\<forall>obs\<in>set childballs. 2 \<le> length obs"
    and holes: "\<forall>h\<in>set holes. 2 \<le> length h"
    and cue: "2 \<le> length cue"
  shows "selectClearShots (cue # others) holes childballs r =
           Inr (match_shots
                  (filter (step1_keeps childballs r) (List.product childballs holes))
                  (map (\<lambda>p. (cue, fst p))
                     (filter (step2_keeps cue childballs r) (List.product childballs holes))))"
  by (simp add: selectClearShots_def child_hole_result_char [OF balls holes]
      cue_child_result_char [OF balls holes cue])


lemma mag_x0: "mag x 0 = \<bar>x\<bar>"
  by (simp add: mag_def)

lemmas eval_defs =
  elem_def coincident_def dis_def abs_less_def mag_x0 COS_VAL_def angle_deg_def angle_below_def
  child_hole_result_def child_hole_entry_def cue_child_result_def cue_child_entry_def
  selectClearShots_def match_shots_def is_same_def lit_1e_9_def lit_3_1415926_def Let_def

text \<open>
  Claim C3.  On obstacles with two coordinates, \<^verbatim>\<open>isPathObstructed\<close> returns true exactly
  when some obstacle of the list, coordinate-equal neither to the start nor to the end,
  has a perpendicular distance to the line through start and end of absolute value below
  the radius and lies closer to the start than the end does.  In particular it returns
  false when no obstacle is both within the radius of the line and closer to the start
  than the end; and the obstacle (-50, 0), behind the start of the path from (0, 0) to
  (100, 0), is reported as obstructing.
\<close>

theorem isPathObstructed_iff_some_obstacle:
  "((\<forall>obs\<in>set obstacles. 2 \<le> length obs) \<longrightarrow>
      isPathObstructed x1 y1 x2 y2 obstacles r =
        Inr (\<exists>obs\<in>set obstacles.
               \<not> (obs ! 0 = x1 \<and> obs ! 1 = y1) \<and> \<not> (obs ! 0 = x2 \<and> obs ! 1 = y2) \<and>
               (\<exists>d. dis (x2 - x1) (y2 - y1) x1 y1 (obs ! 0) (obs ! 1) = Some d \<and> \<bar>d\<bar> < r) \<and>
               mag (obs ! 0 - x1) (obs ! 1 - y1) < mag (x2 - x1) (y2 - y1))) \<and>
   ((\<forall>obs\<in>set obstacles. 2 \<le> length obs \<and>
        \<not> ((\<exists>d. dis (x2 - x1) (y2 - y1) x1 y1 (obs ! 0) (obs ! 1) = Some d \<and> \<bar>d\<bar> < r) \<and>
           mag (obs ! 0 - x1) (obs ! 1 - y1) < mag (x2 - x1) (y2 - y1))) \<longrightarrow>
      isPathObstructed x1 y1 x2 y2 obstacles r = Inr False) \<and>
   (isPathObstructed 0 0 100 0 [[- 50, 0]] 15 = Inr True \<and>
      (- 50 - 0) * (100 - 0) + (0 - 0) * (0 - 0) < (0::real))"
proof -
  have blocks: "obstructs x1 y1 x2 y2 r obs \<longleftrightarrow>
      \<not> (obs ! 0 = x1 \<and> obs ! 1 = y1) \<and> \<not> (obs ! 0 = x2 \<and> obs ! 1 = y2) \<and>
      (\<exists>d. dis (x2 - x1) (y2 - y1) x1 y1 (obs ! 0) (obs ! 1) = Some d \<and> \<bar>d\<bar> < r) \<and>
      mag (obs ! 0 - x1) (obs ! 1 - y1) < mag (x2 - x1) (y2 - y1)" for obs
    by (auto simp add: obstructs_def coincident_def abs_less_def split: option.splits)
  have a: "isPathObstructed x1 y1 x2 y2 obstacles r =
        Inr (\<exists>obs\<in>set obstacles.
               \<not> (obs ! 0 = x1 \<and> obs ! 1 = y1) \<and> \<not> (obs ! 0 = x2 \<and> obs ! 1 = y2) \<and>
               (\<exists>d. dis (x2 - x1) (y2 - y1) x1 y1 (obs ! 0) (obs ! 1) = Some d \<and> \<bar>d\<bar> < r) \<and>
               mag (obs ! 0 - x1) (obs ! 1 - y1) < mag (x2 - x1) (y2 - y1))"
    if "\<forall>obs\<in>set obstacles. 2 \<le> length obs"
    using isPathObstructed_char [OF that, of x1 y1 x2 y2 r] by (simp add: blocks)
  have b: "isPathObstructed x1 y1 x2 y2 obstacles r = Inr False"
    if h: "\<forall>obs\<in>set obstacles. 2 \<le> length obs \<and>
        \<not> ((\<exists>d. dis (x2 - x1) (y2 - y1) x1 y1 (obs ! 0) (obs ! 1) = Some d \<and> \<bar>d\<bar> < r) \<and>
           mag (obs ! 0 - x1) (obs ! 1 - y1) < mag (x2 - x1) (y2 - y1))"
  proof -
    from h have wf: "\<forall>obs\<in>set obstacles. 2 \<le> length obs" by blast
    from h have "\<not> (\<exists>obs\<in>set obstacles. obstructs x1 y1 x2 y2 r obs)"
      unfolding blocks by blast
    with isPathObstructed_char [OF wf, of x1 y1 x2 y2 r] show ?thesis by simp
  qed
  have c: "isPathObstructed 0 0 100 0 [[- 50, 0]] 15 = Inr True"
    by (simp add: eval_defs)
  from a b c show ?thesis by simp
qed

text \<open>
  The statement of C3 at the path from (0, 0) to (100, 0) with radius 15: the obstacle
  (50, 0) obstructs it, the obstacle (50, 20) does not.
\<close>

theorem isPathObstructed_iff_some_obstacle_witness:
  "list_all (\<lambda>obs. 2 \<le> length obs) [[50, 0::real]] \<and>
   isPathObstructed 0 0 100 0 [[50, 0]] 15 = Inr True \<and>
   list_all (\<lambda>obs. 2 \<le> length obs) [[50, 20::real]] \<and>
   dis (100 - 0) (0 - 0) 0 0 50 20 = Some 20 \<and> \<not> \<bar>20\<bar> < (15::real) \<and>
   isPathObstructed 0 0 100 0 [[50, 20]] 15 = Inr False"
  using isPathObstructed_iff_some_obstacle [of "[[50, 0]]" 0 0 100 0 15]
    isPathObstructed_iff_some_obstacle [of "[[50, 20]]" 0 0 100 0 15]
  by (simp add: dis_def mag_x0)



text \<open>
  When the two functions return a value.  \<^verbatim>\<open>isPathObstructed\<close> reads the obstacles in
  order and stops at the first that obstructs; an obstacle with fewer than two entries
  that it reaches is read out of bounds.  The loop nests of \<^verbatim>\<open>selectClearShots\<close> read
  every object ball, every hole and the first cue ball, once there is an object ball and
  a hole.
\<close>

lemma isPathObstructed_result:
  "isPathObstructed x1 y1 x2 y2 obstacles r =
     (if \<exists>obs\<in>set (takeWhile (\<lambda>obs. 2 \<le> length obs) obstacles). obstructs x1 y1 x2 y2 r obs
      then Inr True
      else if list_all (\<lambda>obs. 2 \<le> length obs) obstacles then Inr False
      else Inl OutOfBounds)"
proof (induction obstacles)
  case Nil
  show ?case by simp
next
  case (Cons obs obstacles)
  show ?case
  proof (cases "2 \<le> length obs")
    case True
    with Cons.IH show ?thesis
      by (auto simp add: elem_0 elem_1 obstructs_def Let_def)
  next
    case False
    then have "elem obs 0 = Inl OutOfBounds \<or>
        (elem obs 0 = Inr (obs ! 0) \<and> elem obs (Suc 0) = Inl OutOfBounds)"
      by (auto simp add: elem_def)
    with False show ?thesis by auto
  qed
qed

lemma traverse_Inr_D:
  "traverse f xs = Inr ys \<Longrightarrow> x \<in> set xs \<Longrightarrow> \<exists>y. f x = Inr y"
  by (induction xs arbitrary: ys) (auto split: sum.splits)

lemma bindE_eq_Inr: "bindE m f = Inr y \<longleftrightarrow> (\<exists>v. m = Inr v \<and> f v = Inr y)"
  by (cases m) simp_all

lemma elem_Inr_D: "elem xs i = Inr v \<Longrightarrow> i < length xs"
  by (simp add: elem_def split: if_splits)

lemma child_hole_entry_Inr_D:
  assumes "child_hole_entry childballs r (child, hole) = Inr e"
  shows "2 \<le> length child \<and> 2 \<le> length hole"
proof -
  from assms obtain c1 h1 where "elem child 1 = Inr c1" "elem hole 1 = Inr h1"
    by (auto simp add: child_hole_entry_def bindE_eq_Inr)
  then show ?thesis by (auto dest: elem_Inr_D)
qed

lemma cue_child_entry_Inr_D:
  assumes "cue_child_entry cueballs childballs r (child, hole) = Inr e"
  shows "cueballs \<noteq> [] \<and> 2 \<le> length (cueballs ! 0)"
proof -
  from assms obtain cue q1 where "elem cueballs 0 = Inr cue" "elem cue 1 = Inr q1"
    by (auto simp add: cue_child_entry_def bindE_eq_Inr)
  then show ?thesis by (auto simp add: elem_def split: if_splits)
qed

lemma selectClearShots_Inr_D:
  assumes res: "selectClearShots cueballs holes childballs r = Inr shots"
    and balls: "childballs \<noteq> []" and holes: "holes \<noteq> []"
  shows "cueballs \<noteq> [] \<and> 2 \<le> length (cueballs ! 0) \<and>
         (\<forall>c\<in>set childballs. 2 \<le> length c) \<and> (\<forall>h\<in>set holes. 2 \<le> length h)"
proof -
  from res obtain es1 es2 where
    t1: "traverse (child_hole_entry childballs r) (List.product childballs holes) = Inr es1"
    and t2: "traverse (cue_child_entry cueballs childballs r) (List.product childballs holes) =
      Inr es2"
    by (auto simp add: selectClearShots_def child_hole_result_def cue_child_result_def
        bindE_eq_Inr)
  from balls holes obtain c0 h0 where c0: "c0 \<in> set childballs" and h0: "h0 \<in> set holes"
    by (cases childballs; cases holes) auto
  have all: "2 \<le> length c \<and> 2 \<le> length h" if "c \<in> set childballs" "h \<in> set holes" for c h
  proof -
    from that have "(c, h) \<in> set (List.product childballs holes)" by simp
    from traverse_Inr_D [OF t1 this] show ?thesis
      by (auto dest: child_hole_entry_Inr_D)
  qed
  have "(c0, h0) \<in> set (List.product childballs holes)" using c0 h0 by simp
  from traverse_Inr_D [OF t2 this] have "cueballs \<noteq> [] \<and> 2 \<le> length (cueballs ! 0)"
    by (auto dest: cue_child_entry_Inr_D)
  with all c0 h0 show ?thesis by blast
qed

lemma selectClearShots_no_pair:
  assumes "childballs = [] \<or> holes = []"
  shows "selectClearShots cueballs holes childballs r = Inr []"
proof -
  from assms have "set (List.product childballs holes) = {}"
    by auto
  then have "List.product childballs holes = []"
    by (simp only: set_empty)
  then show ?thesis
    by (simp add: selectClearShots_def child_hole_result_def cue_child_result_def
        match_shots_def)
qed

text \<open>
  Claim C10, as amended.  Neither function checks an index.  \<^verbatim>\<open>isPathObstructed\<close>
  returns a value exactly when every obstacle has at least two entries or an obstacle
  before the first shorter one obstructs the path.  \<^verbatim>\<open>selectClearShots\<close> returns a value
  exactly when there is no object ball, or no hole, or the cue-ball list is not empty and
  its first vector, every object ball and every hole have at least two entries.  So the
  precondition of the claim is enough for every read to be in bounds, and without it the
  reads can fail: an obstacle or a hole with one entry, or an empty cue-ball list, gives
  \<open>OutOfBounds\<close>.
\<close>

theorem indexing_in_bounds_exactly_when:
  "((\<exists>b. isPathObstructed x1 y1 x2 y2 obstacles r = Inr b) \<longleftrightarrow>
      (\<forall>obs\<in>set obstacles. 2 \<le> length obs) \<or>
      (\<exists>obs\<in>set (takeWhile (\<lambda>obs. 2 \<le> length obs) obstacles).
         obstructs x1 y1 x2 y2 r obs)) \<and>
   ((\<exists>shots. selectClearShots cueballs holes childballs r = Inr shots) \<longleftrightarrow>
      childballs = [] \<or> holes = [] \<or>
      (cueballs \<noteq> [] \<and> 2 \<le> length (cueballs ! 0) \<and>
       (\<forall>c\<in>set childballs. 2 \<le> length c) \<and> (\<forall>h\<in>set holes. 2 \<le> length h))) \<and>
   ((\<forall>obs\<in>set obstacles. 2 \<le> length obs) \<longrightarrow>
      (\<exists>b. isPathObstructed x1 y1 x2 y2 obstacles r = Inr b)) \<and>
   (cueballs \<noteq> [] \<and> (\<forall>c\<in>set cueballs. 2 \<le> length c) \<and>
    (\<forall>c\<in>set childballs. 2 \<le> length c) \<and> (\<forall>h\<in>set holes. 2 \<le> length h) \<longrightarrow>
      (\<exists>shots. selectClearShots cueballs holes childballs r = Inr shots)) \<and>
   isPathObstructed 0 0 100 0 [[50]] 15 = Inl OutOfBounds \<and>
   selectClearShots [] [[200, 0]] [[100, 0]] 15 = Inl OutOfBounds \<and>
   selectClearShots [[0, 0]] [[200]] [[100, 0]] 15 = Inl OutOfBounds"
proof -
  have a: "(\<exists>b. isPathObstructed x1 y1 x2 y2 obstacles r = Inr b) \<longleftrightarrow>
      (\<forall>obs\<in>set obstacles. 2 \<le> length obs) \<or>
      (\<exists>obs\<in>set (takeWhile (\<lambda>obs. 2 \<le> length obs) obstacles).
         obstructs x1 y1 x2 y2 r obs)"
    unfolding isPathObstructed_result by (auto simp add: list_all_iff)
  have suff: "\<exists>shots. selectClearShots cueballs holes childballs r = Inr shots"
    if h: "cueballs \<noteq> []" "2 \<le> length (cueballs ! 0)"
      "\<forall>c\<in>set childballs. 2 \<le> length c" "\<forall>h\<in>set holes. 2 \<le> length h"
  proof -
    from h(1) obtain cue others where cs: "cueballs = cue # others" by (cases cueballs) auto
    with h(2) have cue: "2 \<le> length cue" by simp
    show ?thesis
      unfolding cs selectClearShots_char [OF h(3) h(4) cue] by blast
  qed
  have b: "(\<exists>shots. selectClearShots cueballs holes childballs r = Inr shots) \<longleftrightarrow>
      childballs = [] \<or> holes = [] \<or>
      (cueballs \<noteq> [] \<and> 2 \<le> length (cueballs ! 0) \<and>
       (\<forall>c\<in>set childballs. 2 \<le> length c) \<and> (\<forall>h\<in>set holes. 2 \<le> length h))"
    (is "?L \<longleftrightarrow> ?R")
  proof
    assume ?L
    then obtain shots where res: "selectClearShots cueballs holes childballs r = Inr shots"
      by blast
    show ?R
    proof (cases "childballs = [] \<or> holes = []")
      case True
      then show ?thesis by blast
    next
      case False
      with selectClearShots_Inr_D [OF res] show ?thesis by blast
    qed
  next
    assume r: ?R
    show ?L
    proof (cases "childballs = [] \<or> holes = []")
      case True
      then show ?thesis using selectClearShots_no_pair by blast
    next
      case False
      with r suff show ?thesis by blast
    qed
  qed
  have c: "\<exists>b. isPathObstructed x1 y1 x2 y2 obstacles r = Inr b"
    if "\<forall>obs\<in>set obstacles. 2 \<le> length obs"
    using that a by blast
  have d: "\<exists>shots. selectClearShots cueballs holes childballs r = Inr shots"
    if h: "cueballs \<noteq> [] \<and> (\<forall>c\<in>set cueballs. 2 \<le> length c) \<and>
      (\<forall>c\<in>set childballs. 2 \<le> length c) \<and> (\<forall>h\<in>set holes. 2 \<le> length h)"
  proof -
    from h have "2 \<le> length (cueballs ! 0)" by (cases cueballs) auto
    with h show ?thesis by (intro suff) blast+
  qed
  have e: "isPathObstructed 0 0 100 0 [[50]] 15 = Inl OutOfBounds"
    by (simp add: eval_defs)
  have f: "selectClearShots [] [[200, 0]] [[100, 0]] 15 = Inl OutOfBounds"
    by (simp add: eval_defs)
  have g: "selectClearShots [[0, 0]] [[200]] [[100, 0]] 15 = Inl OutOfBounds"
    by (simp add: eval_defs)
  from a b c d e f g show ?thesis by blast
qed

text \<open>
  The statement of C10 at one obstacle, and at one cue ball, one object ball and one hole.
\<close>

theorem indexing_in_bounds_exactly_when_witness:
  "list_all (\<lambda>obs. 2 \<le> length obs) [[50, 0::real]] \<and>
   (\<exists>b. isPathObstructed 0 0 100 0 [[50, 0]] 15 = Inr b) \<and>
   [[0, 0::real]] \<noteq> [] \<and> list_all (\<lambda>c. 2 \<le> length c) [[0, 0::real]] \<and>
   list_all (\<lambda>c. 2 \<le> length c) [[100, 0::real]] \<and>
   list_all (\<lambda>h. 2 \<le> length h) [[200, 0::real]] \<and>
   (\<exists>shots. selectClearShots [[0, 0]] [[200, 0]] [[100, 0]] 15 = Inr shots)"
  using indexing_in_bounds_exactly_when [of 0 0 100 0 "[[50, 0]]" 15 "[[0, 0]]" "[[200, 0]]"
      "[[100, 0]]"]
  by simp

text \<open>
  Claim C10 as stated fails: the precondition is not necessary.  With no object ball
  \<^verbatim>\<open>selectClearShots\<close> returns a value on an empty cue-ball list and a hole with one
  entry, and \<^verbatim>\<open>isPathObstructed\<close> returns true at the obstacle (50, 0) without reading
  the one-entry obstacle after it.
\<close>

theorem precondition_not_necessary:
  "selectClearShots [] [[200]] [] 15 = Inr [] \<and> length [200::real] < 2 \<and>
   isPathObstructed 0 0 100 0 [[50, 0], [50]] 15 = Inr True \<and> length [50::real] < 2"
  by (simp add: eval_defs)

section \<open>Properties of the matching step\<close>

text \<open>
  Every shot that \<^verbatim>\<open>selectClearShots\<close> returns has its ball at the cue ball, up to 1e-9 in
  each coordinate: the matching step compares with the first component of the entries of
  step 2.
\<close>

lemma selected_ball_is_at_cue_ball:
  assumes balls: "\<forall>obs\<in>set childballs. 2 \<le> length obs"
    and holes: "\<forall>h\<in>set holes. 2 \<le> length h"
    and cue: "2 \<le> length cue"
    and res: "selectClearShots (cue # others) holes childballs r = Inr shots"
    and mem: "(c, h) \<in> set shots"
  shows "is_same c cue"
proof -
  from res have "shots =
      match_shots (filter (step1_keeps childballs r) (List.product childballs holes))
        (map (\<lambda>p. (cue, fst p))
           (filter (step2_keeps cue childballs r) (List.product childballs holes)))"
    unfolding selectClearShots_char [OF balls holes cue] by simp
  with mem show ?thesis
    by (auto simp add: match_shots_def list_ex_iff)
qed

text \<open>
  Claim C1.  Cue ball (0, 0), one object ball (100, 0), one hole (200, 0), radius 15:
  step 1 records the pair (ball, hole) and step 2 records an entry for the same ball, but
  the matching step compares the ball with the first component of the entry, the cue
  ball, and \<^verbatim>\<open>selectClearShots\<close> returns no shot.
\<close>

theorem matching_compares_with_cue_ball:
  "child_hole_result [[200, 0]] [[100, 0]] 15 = Inr [([100, 0], [200, 0])] \<and>
   cue_child_result [[0, 0]] [[200, 0]] [[100, 0]] 15 = Inr [([0, 0], [100, 0])] \<and>
   selectClearShots [[0, 0]] [[200, 0]] [[100, 0]] 15 = Inr []"
  by (simp add: eval_defs)

section \<open>Properties of the selection in main\<close>

lemmas main_defs =
  main_def select_flip_def flip_step_def strike_def select_direct_def direct_step_def
  shot_dist_def

text \<open>
  Claim C2.  In the scenario of C1 the direct shot would have the distance 200, but
  \<^verbatim>\<open>selectClearShots\<close> returns no shot and \<^verbatim>\<open>main\<close> goes on to the flip shots; with
  none of them it ends with the exit code -1.
\<close>

theorem scenario_direct_shot_not_produced:
  "shot_dist [[0, 0]] ([100, 0], [200, 0]) = Inr 200 \<and>
   selectClearShots [[0, 0]] [[200, 0]] [[100, 0]] 15 = Inr [] \<and>
   main (\<lambda>cue balls obstacles walls r. []) 0 [[0, 0]] [[100, 0]] [[200, 0]] [] =
     Inr \<lparr>exit_code = - 1, cout = [], cerr = ''No available shots (direct or flip).'',
          actions = []\<rparr>"
  by (simp add: eval_defs main_defs)

text \<open>
  Claim C5.  Cue ball (0, 0), object balls (100, 0) and (150, 0), hole (200, 0): there is
  no direct shot.  With a single flip shot of total distance 300 \<^verbatim>\<open>main\<close> selects it, but
  the distance it passes to \<^verbatim>\<open>moveToPose\<close> and \<^verbatim>\<open>executeStrike\<close> is 0: the variable
  \<^verbatim>\<open>total_distance\<close> is assigned only when a later flip shot is strictly shorter than
  the first.
\<close>

theorem single_flip_shot_reports_zero_distance:
  "selectClearShots [[0, 0]] [[200, 0]] [[100, 0], [150, 0]] 15 = Inr [] \<and>
   select_flip [\<lparr>target_coords = [150, 0], hole_coords = [200, 0], total_distance = 300\<rparr>] =
     \<lparr>min_dist = DBL_MAX, target_ball = [150, 0], target_hole = [200, 0],
      total_distance_var = 0\<rparr> \<and>
   main (\<lambda>cue balls obstacles walls r.
           [\<lparr>target_coords = [150, 0], hole_coords = [200, 0], total_distance = 300\<rparr>])
     0 [[0, 0]] [[100, 0], [150, 0]] [[200, 0]] [[0, 100], [300, 100]] =
     Inr \<lparr>exit_code = 0, cout = ''Selected flip shot via wall.'', cerr = [],
          actions = [MoveToPose 0, ExecuteStrike 0, ReturnToHome, Disconnect]\<rparr>"
  by (simp add: eval_defs main_defs)

text \<open>
  Claim C6.  When the robot is connected, \<^verbatim>\<open>selectClearShots\<close> returns no shot and
  \<^verbatim>\<open>evaluateFlipShots\<close> returns none either, \<^verbatim>\<open>main\<close> writes
  \<^verbatim>\<open>No available shots (direct or flip).\<close> to the error stream and returns -1 without any
  command to the arm.
\<close>

theorem no_shot_fails_without_hardware_action:
  "0 \<le> device_id \<and> selectClearShots cueball holes childballs 15 = Inr [] \<and> cueball \<noteq> [] \<and>
   evaluateFlipShots (cueball ! 0) childballs childballs walls 15 = [] \<longrightarrow>
   main evaluateFlipShots device_id cueball childballs holes walls =
     Inr \<lparr>exit_code = - 1, cout = [], cerr = ''No available shots (direct or flip).'',
          actions = []\<rparr>"
  by (auto simp add: main_def elem_def)

text \<open>
  The statement of C6 at the cue ball (0, 0), the object balls (100, 0) and (150, 0), the
  hole (200, 0) and no flip shot.
\<close>

theorem no_shot_fails_without_hardware_action_witness:
  "(0::int) \<le> 0 \<and> selectClearShots [[0, 0]] [[200, 0]] [[100, 0], [150, 0]] 15 = Inr [] \<and>
   [[0, 0::real]] \<noteq> [] \<and>
   main (\<lambda>cue balls obstacles walls r. []) 0 [[0, 0]] [[100, 0], [150, 0]] [[200, 0]] [] =
     Inr \<lparr>exit_code = - 1, cout = [], cerr = ''No available shots (direct or flip).'',
          actions = []\<rparr>"
  using no_shot_fails_without_hardware_action
    [of 0 "[[0, 0]]" "[[200, 0]]" "[[100, 0], [150, 0]]" "\<lambda>cue balls obstacles walls r. []" "[]"]
  by (simp add: eval_defs)

section \<open>The selection loops\<close>

text \<open>
  What the two loops select: the direct loop, when the distances of the shots are \<open>ds\<close>
  and one of them is below the initial value of \<^verbatim>\<open>min_dist\<close>, the shot at the first minimum
  of \<open>ds\<close>; the flip loop the flip shot at the first minimum of the total distances.
\<close>

lemma first_min_at_Suc:
  assumes "first_min_at ds i" and "ds ! i < d"
  shows "first_min_at (d # ds) (Suc i)"
  using assms unfolding first_min_at_def
  by (auto simp add: nth_Cons split: nat.splits)

lemma first_min_at_0:
  assumes "\<forall>x\<in>set ds. d \<le> x"
  shows "first_min_at (d # ds) 0"
  using assms unfolding first_min_at_def
  by (auto simp add: nth_Cons split: nat.splits)

lemma traverse_Cons_Inr:
  "traverse f (x # xs) = Inr ys \<longleftrightarrow>
     (\<exists>y ys'. f x = Inr y \<and> traverse f xs = Inr ys' \<and> ys = y # ys')"
  by (auto split: sum.splits)

lemma direct_loop:
  "traverse (shot_dist cueball) shots = Inr ds \<Longrightarrow>
   \<exists>v'. foldE (direct_step cueball) v shots = Inr v' \<and>
     (if \<exists>d\<in>set ds. d < min_dist v
      then \<exists>i. first_min_at ds i \<and> ds ! i < min_dist v \<and> min_dist v' = ds ! i \<and>
             target_ball v' = fst (shots ! i) \<and> target_hole v' = snd (shots ! i) \<and>
             total_distance_var v' = ds ! i
      else v' = v)"
proof (induction shots arbitrary: v ds)
  case Nil
  then show ?case by simp
next
  case (Cons s rest)
  from Cons.prems obtain d drest where
    d: "shot_dist cueball s = Inr d" and rest: "traverse (shot_dist cueball) rest = Inr drest"
    and ds: "ds = d # drest"
    unfolding traverse_Cons_Inr by blast
  define v1 where "v1 = (if d < min_dist v
      then v\<lparr>min_dist := d, target_ball := fst s, target_hole := snd s, total_distance_var := d\<rparr>
      else v)"
  have step: "direct_step cueball v s = Inr v1"
    by (simp add: direct_step_def d v1_def)
  from Cons.IH [OF rest, of v1] obtain v' where
    run: "foldE (direct_step cueball) v1 rest = Inr v'"
    and ih: "if \<exists>d\<in>set drest. d < min_dist v1
      then \<exists>i. first_min_at drest i \<and> drest ! i < min_dist v1 \<and> min_dist v' = drest ! i \<and>
             target_ball v' = fst (rest ! i) \<and> target_hole v' = snd (rest ! i) \<and>
             total_distance_var v' = drest ! i
      else v' = v1"
    by blast
  have run': "foldE (direct_step cueball) v (s # rest) = Inr v'"
    by (simp add: step run)
  show ?case
  proof (cases "d < min_dist v")
    case True
    then have m1: "min_dist v1 = d" by (simp add: v1_def)
    show ?thesis
    proof (cases "\<exists>d'\<in>set drest. d' < d")
      case True
      with ih m1 obtain i where i: "first_min_at drest i" "drest ! i < d"
        "min_dist v' = drest ! i" "target_ball v' = fst (rest ! i)"
        "target_hole v' = snd (rest ! i)" "total_distance_var v' = drest ! i"
        by auto
      from i(1,2) have "first_min_at (d # drest) (Suc i)" by (rule first_min_at_Suc)
      with i \<open>d < min_dist v\<close> run' ds show ?thesis
        by (intro exI [of _ v']) (auto intro!: exI [of _ "Suc i"])
    next
      case False
      with ih m1 have v': "v' = v1" by auto
      from False have "first_min_at (d # drest) 0" by (intro first_min_at_0) auto
      with v' \<open>d < min_dist v\<close> run' ds show ?thesis
        by (intro exI [of _ v']) (auto simp add: v1_def intro!: exI [of _ 0])
    qed
  next
    case False
    then have v1: "v1 = v" by (simp add: v1_def)
    show ?thesis
    proof (cases "\<exists>d'\<in>set drest. d' < min_dist v")
      case True
      with ih v1 obtain i where i: "first_min_at drest i" "drest ! i < min_dist v"
        "min_dist v' = drest ! i" "target_ball v' = fst (rest ! i)"
        "target_hole v' = snd (rest ! i)" "total_distance_var v' = drest ! i"
        by auto
      from i(2) False have "drest ! i < d" by simp
      with i(1) have "first_min_at (d # drest) (Suc i)" by (rule first_min_at_Suc)
      with i True run' ds show ?thesis
        by (intro exI [of _ v']) (auto intro!: exI [of _ "Suc i"])
    next
      case no: False
      with ih v1 have "v' = v" by auto
      with no False run' ds show ?thesis by auto
    qed
  qed
qed

lemma flip_loop:
  "fold flip_step fss (b, td) = (b', td') \<Longrightarrow>
   (if \<exists>fs\<in>set fss. total_distance fs < total_distance b
    then \<exists>i. first_min_at (map total_distance fss) i \<and>
           total_distance (fss ! i) < total_distance b \<and> b' = fss ! i \<and>
           td' = total_distance (fss ! i)
    else b' = b \<and> td' = td)"
proof (induction fss arbitrary: b td)
  case Nil
  then show ?case by simp
next
  case (Cons fs rest)
  show ?case
  proof (cases "total_distance fs < total_distance b")
    case True
    then have "flip_step fs (b, td) = (fs, total_distance fs)"
      by (simp add: flip_step_def)
    with Cons.prems have run: "fold flip_step rest (fs, total_distance fs) = (b', td')"
      by simp
    note ih = Cons.IH [OF run]
    show ?thesis
    proof (cases "\<exists>x\<in>set rest. total_distance x < total_distance fs")
      case True
      with ih obtain i where i: "first_min_at (map total_distance rest) i"
        "total_distance (rest ! i) < total_distance fs" "b' = rest ! i"
        "td' = total_distance (rest ! i)"
        by auto
      from i(1) have il: "i < length rest" by (simp add: first_min_at_def)
      from i(1) have "first_min_at (total_distance fs # map total_distance rest) (Suc i)"
        by (rule first_min_at_Suc) (use i(2) il in simp)
      with i \<open>total_distance fs < total_distance b\<close> show ?thesis
        by (auto intro!: exI [of _ "Suc i"])
    next
      case False
      with ih have "b' = fs" "td' = total_distance fs" by auto
      moreover from False have "first_min_at (total_distance fs # map total_distance rest) 0"
        by (intro first_min_at_0) auto
      ultimately show ?thesis using \<open>total_distance fs < total_distance b\<close>
        by (auto intro!: exI [of _ 0])
    qed
  next
    case False
    then have "flip_step fs (b, td) = (b, td)"
      by (simp add: flip_step_def)
    with Cons.prems have run: "fold flip_step rest (b, td) = (b', td')"
      by simp
    note ih = Cons.IH [OF run]
    show ?thesis
    proof (cases "\<exists>x\<in>set rest. total_distance x < total_distance b")
      case True
      with ih obtain i where i: "first_min_at (map total_distance rest) i"
        "total_distance (rest ! i) < total_distance b" "b' = rest ! i"
        "td' = total_distance (rest ! i)"
        by auto
      from i(1) have il: "i < length rest" by (simp add: first_min_at_def)
      from i(1) have "first_min_at (total_distance fs # map total_distance rest) (Suc i)"
        by (rule first_min_at_Suc) (use i(2) il False in simp)
      with i True show ?thesis
        by (auto intro!: exI [of _ "Suc i"])
    next
      case no: False
      with ih False show ?thesis by auto
    qed
  qed
qed

lemma select_direct_first_min:
  assumes "traverse (shot_dist cueball) valid_shots = Inr ds" and "\<exists>d\<in>set ds. d < DBL_MAX"
  shows "\<exists>v i. select_direct cueball valid_shots = Inr v \<and> first_min_at ds i \<and>
           target_ball v = fst (valid_shots ! i) \<and> target_hole v = snd (valid_shots ! i) \<and>
           total_distance_var v = ds ! i"
  using direct_loop [OF assms(1),
      of "\<lparr>min_dist = DBL_MAX, target_ball = [], target_hole = [], total_distance_var = 0\<rparr>"]
    assms(2)
  unfolding select_direct_def by auto

lemma select_flip_first_min:
  assumes "flip_shots \<noteq> []"
  shows "\<exists>i. first_min_at (map total_distance flip_shots) i \<and>
           target_ball (select_flip flip_shots) = target_coords (flip_shots ! i) \<and>
           target_hole (select_flip flip_shots) = hole_coords (flip_shots ! i)"
proof -
  obtain b' td' where run: "fold flip_step flip_shots (hd flip_shots, 0) = (b', td')"
    by (cases "fold flip_step flip_shots (hd flip_shots, 0)") auto
  have sel: "target_ball (select_flip flip_shots) = target_coords b'"
    "target_hole (select_flip flip_shots) = hole_coords b'"
    by (simp_all add: select_flip_def run)
  note loop = flip_loop [OF run]
  show ?thesis
  proof (cases "\<exists>fs\<in>set flip_shots. total_distance fs < total_distance (hd flip_shots)")
    case True
    with loop sel show ?thesis by auto
  next
    case False
    with loop have b': "b' = hd flip_shots" by simp
    from assms obtain fs rest where fr: "flip_shots = fs # rest" by (cases flip_shots) auto
    from False fr have "first_min_at (map total_distance flip_shots) 0"
      by (auto intro!: first_min_at_0 simp add: not_less)
    with b' sel fr show ?thesis by (auto intro!: exI [of _ 0])
  qed
qed

text \<open>
  Claim C4.  Cue ball (0, 0), object ball (2^-30, 0), hole (\<^verbatim>\<open>DBL_MAX\<close>, 0): the list of
  direct shots is not empty, its one shot has the distance \<^verbatim>\<open>DBL_MAX\<close>, which is not below
  the initial value of \<^verbatim>\<open>min_dist\<close>, and the direct loop selects nothing: the target
  vectors stay empty and the hit position reads them out of bounds.  The flip loop starts
  from \<^verbatim>\<open>flip_shots[0]\<close> and always selects.
\<close>

theorem selector_picks_nothing_at_DBL_MAX:
  "selectClearShots [[0, 0]] [[DBL_MAX, 0]] [[1 / 2 ^ 30, 0]] 15 =
     Inr [([1 / 2 ^ 30, 0], [DBL_MAX, 0])] \<and>
   shot_dist [[0, 0]] ([1 / 2 ^ 30, 0], [DBL_MAX, 0]) = Inr DBL_MAX \<and>
   select_direct [[0, 0]] [([1 / 2 ^ 30, 0], [DBL_MAX, 0])] =
     Inr \<lparr>min_dist = DBL_MAX, target_ball = [], target_hole = [], total_distance_var = 0\<rparr> \<and>
   main (\<lambda>cue balls obstacles walls r. []) 0 [[0, 0]] [[1 / 2 ^ 30, 0]] [[DBL_MAX, 0]] [] =
     Inl OutOfBounds"
proof -
  have big: "1 / 2 ^ 30 < DBL_MAX" by (simp add: DBL_MAX_def)
  have a: "selectClearShots [[0, 0]] [[DBL_MAX, 0]] [[1 / 2 ^ 30, 0]] 15 =
     Inr [([1 / 2 ^ 30, 0], [DBL_MAX, 0])]"
    using big by (simp add: eval_defs)
  have b: "shot_dist [[0, 0]] ([1 / 2 ^ 30, 0], [DBL_MAX, 0]) = Inr DBL_MAX"
    using big by (simp add: shot_dist_def elem_def mag_x0)
  from b have b': "shot_dist [[0, 0]] ([1 / 1073741824, 0], [DBL_MAX, 0]) = Inr DBL_MAX"
    by simp
  have c: "select_direct [[0, 0]] [([1 / 2 ^ 30, 0], [DBL_MAX, 0])] =
     Inr \<lparr>min_dist = DBL_MAX, target_ball = [], target_hole = [], total_distance_var = 0\<rparr>"
    by (simp add: select_direct_def direct_step_def b')
  from a c have d: "main (\<lambda>cue balls obstacles walls r. []) 0 [[0, 0]] [[1 / 2 ^ 30, 0]]
      [[DBL_MAX, 0]] [] = Inl OutOfBounds"
    by (simp add: main_def strike_def elem_def)
  from a b c d show ?thesis by simp
qed

section \<open>The strike angle filter\<close>

text \<open>
  In exact arithmetic the cosine that \<^verbatim>\<open>COS_VAL\<close> returns lies between -1 and 1, so that
  the NaN branch of \<open>angle_deg\<close> is taken only for a cosine that has no value.
\<close>

lemma mag_nonneg: "0 \<le> mag x y"
  by (simp add: mag_def)

lemma dot_le_mag: "\<bar>ax * bx + ay * by\<bar> \<le> mag ax ay * mag bx by"
proof -
  have "(ax * bx + ay * by)\<^sup>2 \<le> (ax\<^sup>2 + ay\<^sup>2) * (bx\<^sup>2 + by\<^sup>2)"
  proof -
    have "(ax\<^sup>2 + ay\<^sup>2) * (bx\<^sup>2 + by\<^sup>2) - (ax * bx + ay * by)\<^sup>2 = (ax * by - ay * bx)\<^sup>2"
      by (simp add: power2_eq_square algebra_simps)
    moreover have "0 \<le> (ax * by - ay * bx)\<^sup>2" by simp
    ultimately show ?thesis by linarith
  qed
  also have "\<dots> = (mag ax ay * mag bx by)\<^sup>2"
    by (simp add: mag_def power_mult_distrib)
  finally have "(ax * bx + ay * by)\<^sup>2 \<le> (mag ax ay * mag bx by)\<^sup>2" .
  moreover have "0 \<le> mag ax ay * mag bx by"
    by (simp add: mag_nonneg)
  ultimately show ?thesis
    by (simp add: abs_le_square_iff [symmetric] power2_le_iff_abs_le)
qed

lemma COS_VAL_bounds:
  assumes "COS_VAL ax ay bx by = Some v"
  shows "- 1 \<le> v \<and> v \<le> 1"
proof -
  from assms have nz: "mag ax ay * mag bx by \<noteq> 0"
    and v: "v = (ax * bx + ay * by) / (mag ax ay * mag bx by)"
    by (auto simp add: COS_VAL_def split: if_splits)
  have pos: "0 < mag ax ay * mag bx by"
    using nz mag_nonneg [of ax ay] mag_nonneg [of bx "by"]
    by (metis less_eq_real_def mult_nonneg_nonneg)
  have "\<bar>v\<bar> = \<bar>ax * bx + ay * by\<bar> / (mag ax ay * mag bx by)"
    using pos by (simp add: v)
  also have "\<dots> \<le> 1"
    using dot_le_mag [of ax bx ay "by"] pos by simp
  finally show ?thesis by (simp add: abs_le_iff)
qed

text \<open>
  The two bounds that the input of the next theorem needs: its cosine lies above the cosine
  of 110 degrees (by the triple-angle formula) and not above the cosine of
  110 * 3.14159261 / 180 radians (by the Maclaurin expansion of the cosine to the order 16).
\<close>

lemma mag_pythagoras: "0 \<le> z \<Longrightarrow> x\<^sup>2 + y\<^sup>2 = z\<^sup>2 \<Longrightarrow> mag x y = z"
  by (simp add: mag_def)

lemma sum_upto_16:
  fixes f :: "nat \<Rightarrow> real"
  shows "(\<Sum>m<16. f m) = f 0 + f 1 + f 2 + f 3 + f 4 + f 5 + f 6 + f 7 + f 8 + f 9 + f 10
     + f 11 + f 12 + f 13 + f 14 + f 15"
  by (simp add: eval_nat_numeral)

lemma cos_coeff_vals:
  "cos_coeff (Suc 0) = 0" "cos_coeff 2 = - 1 / 2" "cos_coeff 3 = 0" "cos_coeff 4 = 1 / 24"
  "cos_coeff 5 = 0" "cos_coeff 6 = - 1 / 720" "cos_coeff 7 = 0" "cos_coeff 8 = 1 / 40320"
  "cos_coeff 9 = 0" "cos_coeff 10 = - 1 / 3628800" "cos_coeff 11 = 0"
  "cos_coeff 12 = 1 / 479001600" "cos_coeff 13 = 0" "cos_coeff 14 = - 1 / 87178291200"
  "cos_coeff 15 = 0"
  by (simp_all add: cos_coeff_def fact_numeral)

lemma cos_sum16:
  "(\<Sum>m<16. cos_coeff m * (x::real) ^ m) =
     1 - x^2 / 2 + x^4 / 24 - x^6 / 720 + x^8 / 40320 - x^10 / 3628800
       + x^12 / 479001600 - x^14 / 87178291200"
  unfolding sum_upto_16 by (simp add: cos_coeff_vals)

lemma cos_lower16:
  fixes x :: real
  assumes "0 < x"
  shows "1 - x^2 / 2 + x^4 / 24 - x^6 / 720 + x^8 / 40320 - x^10 / 3628800
       + x^12 / 479001600 - x^14 / 87178291200 - x^16 / 20922789888000 \<le> cos x"
proof -
  obtain t where t: "cos x = (\<Sum>m<16. cos_coeff m * x ^ m) +
      (cos (t + 1/2 * real 16 * pi) / fact 16) * x ^ 16"
    using Maclaurin_cos_expansion2 [OF assms, of 16] by auto
  have f: "fact 16 = (20922789888000::real)"
    by (simp add: fact_numeral)
  have "- 1 \<le> cos (t + 1/2 * real 16 * pi)" by (rule cos_ge_minus_one)
  then have "- 1 * (x ^ 16 / 20922789888000) \<le>
      cos (t + 1/2 * real 16 * pi) * (x ^ 16 / 20922789888000)"
    by (rule mult_right_mono) (use assms in simp)
  then have "- (x ^ 16 / 20922789888000) \<le> (cos (t + 1/2 * real 16 * pi) / fact 16) * x ^ 16"
    unfolding f by simp
  with t show ?thesis unfolding cos_sum16 by linarith
qed

lemma cex_cos_le: "- 86.2602 / 252.207962 \<le> cos (110 * 3.14159261 / 180 :: real)"
proof -
  define x :: real where "x = 110 * 3.14159261 / 180"
  have "- 86.2602 / 252.207962 \<le>
      1 - x^2 / 2 + x^4 / 24 - x^6 / 720 + x^8 / 40320 - x^10 / 3628800
       + x^12 / 479001600 - x^14 / 87178291200 - x^16 / 20922789888000"
    by (simp add: x_def power_divide)
  also have "\<dots> \<le> cos x"
    by (rule cos_lower16) (simp add: x_def)
  finally show ?thesis by (simp add: x_def)
qed

lemma cos_110_deg_less: "cos (11 * pi / 18) < (- 86.2602 / 252.207962 :: real)"
proof (rule ccontr)
  define c :: real where "c = - 86.2602 / 252.207962"
  define k where "k = cos (11 * pi / 18)"
  assume "\<not> cos (11 * pi / 18) < - 86.2602 / 252.207962"
  then have ck: "c \<le> k" by (simp add: c_def k_def)
  have "cos (11 * pi / 18) \<le> cos (pi / 2)"
    by (rule cos_monotone_0_pi_le) (use pi_gt_zero in auto)
  then have k_le0: "k \<le> 0" by (simp add: k_def)
  have "cos (2 * pi / 3) \<le> cos (11 * pi / 18)"
    by (rule cos_monotone_0_pi_le) (use pi_gt_zero in auto)
  moreover have "cos (2 * pi / 3) = - (1 / 2)"
    using cos_120 by simp
  ultimately have k_ge: "- (1 / 2) \<le> k" by (simp add: k_def)
  have "cos (3 * (11 * pi / 18)) = 4 * k ^ 3 - 3 * k"
    unfolding k_def by (rule cos_treble_cos)
  moreover have "cos (3 * (11 * pi / 18)) = cos (pi / 6)"
  proof -
    have e: "3 * (11 * pi / 18) = 2 * pi - pi / 6" by simp
    show ?thesis unfolding e by (subst cos_diff) simp
  qed
  ultimately have hk: "4 * k ^ 3 - 3 * k = sqrt 3 / 2" by (simp add: cos_30)
  have c_ge: "- (1 / 2) \<le> c" and c_le0: "c \<le> 0"
    by (simp_all add: c_def)
  have f1: "c - k \<le> 0" using ck by simp
  have "c\<^sup>2 \<le> 1 / 4"
  proof -
    have "(- c) * (- c) \<le> (1 / 2) * (1 / 2)"
      by (rule mult_mono) (use c_ge c_le0 in auto)
    then show ?thesis by (simp add: power2_eq_square)
  qed
  moreover have "k\<^sup>2 \<le> 1 / 4"
  proof -
    have "(- k) * (- k) \<le> (1 / 2) * (1 / 2)"
      by (rule mult_mono) (use k_ge k_le0 in auto)
    then show ?thesis by (simp add: power2_eq_square)
  qed
  moreover have "c * k \<le> 1 / 4"
  proof -
    have "(- c) * (- k) \<le> (1 / 2) * (1 / 2)"
      by (rule mult_mono) (use c_ge c_le0 k_ge k_le0 in auto)
    then show ?thesis by simp
  qed
  ultimately have f2: "4 * (c\<^sup>2 + c * k + k\<^sup>2) - 3 \<le> 0"
    by simp
  have "0 \<le> (c - k) * (4 * (c\<^sup>2 + c * k + k\<^sup>2) - 3)"
    using f1 f2 by (rule mult_nonpos_nonpos)
  also have "\<dots> = (4 * c ^ 3 - 3 * c) - (4 * k ^ 3 - 3 * k)"
    by (simp add: algebra_simps power2_eq_square power3_eq_cube)
  finally have "sqrt 3 / 2 \<le> 4 * c ^ 3 - 3 * c" using hk by simp
  then have "sqrt 3 \<le> 2 * (4 * c ^ 3 - 3 * c)" by simp
  moreover have "2 * (4 * c ^ 3 - 3 * c) < sqrt 3"
  proof (rule real_less_rsqrt)
    show "(2 * (4 * c ^ 3 - 3 * c))\<^sup>2 < 3"
      by (simp add: c_def power2_eq_square power3_eq_cube)
  qed
  ultimately show False by simp
qed

text \<open>
  Claim C8.  Cue ball (0, 0), object ball (100, 0), hole (13.7398, 236.997962): the path
  from the ball to the cue ball is not obstructed and the angle between the vector from
  the ball to the cue ball and the vector from the hole to the ball is below 110 degrees
  (\<open>arccos c * 180 / pi < 110\<close>), but the second loop nest appends no entry: the source
  converts to degrees with the literal 3.1415926, which gives a value of at least 110.
\<close>

theorem angle_below_110_degrees_rejected:
  "isPathObstructed 100 0 0 0 [[100, 0]] 15 = Inr False \<and>
   angle_between (0 - 100) (0 - 0) (100 - 13.7398) (0 - 236.997962) =
     Some (arccos (- 86.2602 / 252.207962)) \<and>
   arccos (- 86.2602 / 252.207962) * 180 / pi < 110 \<and>
   cue_child_entry [[0, 0]] [[100, 0]] 15 ([100, 0], [13.7398, 236.997962]) = Inr [] \<and>
   cue_child_result [[0, 0]] [[13.7398, 236.997962]] [[100, 0]] 15 = Inr []"
proof -
  define c :: real where "c = - 86.2602 / 252.207962"
  have c_range: "- 1 \<le> c" "c \<le> 1" by (simp_all add: c_def)
  have "mag 86.2602 (- 236.997962) = 252.207962"
    by (rule mag_pythagoras) (simp_all add: power2_eq_square)
  then have m1: "mag (431301 / 5000) (- (118498981 / 500000)) = 126103981 / 500000"
    by simp
  have "mag (- 86.2602) 236.997962 = 252.207962"
    by (rule mag_pythagoras) (simp_all add: power2_eq_square)
  then have m2: "mag (- (431301 / 5000)) (118498981 / 500000) = 126103981 / 500000"
    by simp
  have clear: "isPathObstructed 100 0 0 0 [[100, 0]] 15 = Inr False"
    by (simp add: eval_defs)
  have ab: "angle_between (- 100) 0 86.2602 (- 236.997962) = Some (arccos c)"
    by (simp add: angle_between_def COS_VAL_def mag_x0 m1 c_def)
  have cv: "COS_VAL 100 0 (- 86.2602) 236.997962 = Some c"
    by (simp add: COS_VAL_def mag_x0 m2 c_def)
  have true_deg: "arccos c * 180 / pi < 110"
  proof -
    have "cos (11 * pi / 18) < c" using cos_110_deg_less by (simp add: c_def)
    moreover have "- 1 \<le> cos (11 * pi / 18)" by (rule cos_ge_minus_one)
    ultimately have "arccos c < arccos (cos (11 * pi / 18))"
      using c_range by (intro arccos_less_arccos)
    also have "arccos (cos (11 * pi / 18)) = 11 * pi / 18"
      by (rule arccos_cos) (use pi_gt_zero in auto)
    finally show ?thesis using pi_gt_zero by (simp add: field_simps)
  qed
  have lit_pos: "0 < lit_3_1415926" and lit_le: "lit_3_1415926 \<le> 3.14159261"
    by (simp_all add: lit_3_1415926_def)
  have code_deg: "110 \<le> arccos c * 180 / lit_3_1415926"
  proof -
    define x :: real where "x = 110 * lit_3_1415926 / 180"
    define x' :: real where "x' = 110 * 3.14159261 / 180"
    have x0: "0 \<le> x" using lit_pos by (simp add: x_def)
    have xx': "x \<le> x'" using lit_le by (simp add: x_def x'_def)
    have x'pi: "x' \<le> pi" using pi_ge_two by (simp add: x'_def)
    have "c \<le> cos x'" using cex_cos_le by (simp add: c_def x'_def)
    also have "cos x' \<le> cos x" using x0 xx' x'pi by (rule cos_monotone_0_pi_le)
    finally have "c \<le> cos x" .
    moreover have "cos x \<le> 1" by (rule cos_le_one)
    ultimately have "arccos (cos x) \<le> arccos c"
      using c_range by (intro arccos_le_arccos)
    moreover have "arccos (cos x) = x"
      using x0 xx' x'pi by (intro arccos_cos) auto
    ultimately have "110 * lit_3_1415926 / 180 \<le> arccos c" by (simp add: x_def)
    with lit_pos show ?thesis by (simp add: field_simps)
  qed
  then have "\<not> \<bar>arccos c * 180 / lit_3_1415926\<bar> < 110" by linarith
  with c_range have rej: "\<not> angle_below (angle_deg (Some c)) 110"
    by (simp add: angle_below_def angle_deg_def)
  have entry: "cue_child_entry [[0, 0]] [[100, 0]] 15 ([100, 0], [13.7398, 236.997962]) = Inr []"
    using clear cv rej by (simp add: cue_child_entry_def elem_def Let_def)
  from entry have res: "cue_child_result [[0, 0]] [[13.7398, 236.997962]] [[100, 0]] 15 = Inr []"
    by (simp add: cue_child_result_def)
  from clear ab true_deg entry res show ?thesis by (simp add: c_def)
qed

end
